theory Spec2Isabelle
  imports Main "HOL-Library.Sublist"
begin

section \<open>Parsed documents and the Python operations applied to them\<close>

text \<open>
  \<open>RespondentAnswers.get_answers\<close> (src/surveyxact.utility.py, lines 326-418) works on
  two documents that went through \<open>json.loads(json.dumps(xmltodict.parse(...)))\<close>. Such a
  document is built from dictionaries with string keys, lists, strings and \<open>None\<close>.
  A dictionary is an association list read with \<open>map_of\<close>.
\<close>

datatype json = JNull | JStr string | JList "json list" | JObj "(string \<times> json) list"

text \<open>
  The built-in exceptions the code can raise on such a document. \<open>DocumentFormatError\<close>
  is the class named by the specification; the source defines no exception class and no
  statement of it raises this one.
\<close>

datatype error = KeyError string | TypeError | AttributeError | DocumentFormatError

text \<open>\<open>v[k]\<close> for a string literal \<open>k\<close>: only a dictionary can be indexed by a string.\<close>

fun subscript :: "json \<Rightarrow> string \<Rightarrow> error + json" where
  "subscript (JObj kvs) k = (case map_of kvs k of Some v \<Rightarrow> Inr v | None \<Rightarrow> Inl (KeyError k))"
| "subscript JNull k = Inl TypeError"
| "subscript (JStr s) k = Inl TypeError"
| "subscript (JList xs) k = Inl TypeError"

text \<open>\<open>v.get(k, d)\<close>: only a dictionary has the method.\<close>

fun get_method :: "json \<Rightarrow> string \<Rightarrow> json \<Rightarrow> error + json" where
  "get_method (JObj kvs) k d = Inr (case map_of kvs k of Some v \<Rightarrow> v | None \<Rightarrow> d)"
| "get_method JNull k d = Inl AttributeError"
| "get_method (JStr s) k d = Inl AttributeError"
| "get_method (JList xs) k d = Inl AttributeError"

text \<open>
  \<open>for x in v\<close>: a list yields its elements, a dictionary its keys, a string its
  characters; \<open>None\<close> is not iterable.
\<close>

fun iterate :: "json \<Rightarrow> error + json list" where
  "iterate (JList xs) = Inr xs"
| "iterate (JObj kvs) = Inr (map (\<lambda>kv. JStr (fst kv)) kvs)"
| "iterate (JStr s) = Inr (map (\<lambda>c. JStr [c]) s)"
| "iterate JNull = Inl TypeError"

text \<open>\<open>k in item\<close>, evaluated by the code only after \<open>item['@name']\<close> succeeded, that is on a dictionary.\<close>

fun has_key :: "json \<Rightarrow> string \<Rightarrow> bool" where
  "has_key (JObj kvs) k = (map_of kvs k \<noteq> None)"
| "has_key JNull k = False"
| "has_key (JStr s) k = False"
| "has_key (JList xs) k = False"

text \<open>A dictionary key must be hashable: strings and \<open>None\<close> are, lists and dictionaries are not.\<close>

fun hashable :: "json \<Rightarrow> bool" where
  "hashable JNull = True"
| "hashable (JStr s) = True"
| "hashable (JList xs) = False"
| "hashable (JObj kvs) = False"

text \<open>Truth value of \<open>if v:\<close>.\<close>

fun truthy :: "json \<Rightarrow> bool" where
  "truthy JNull = False"
| "truthy (JStr s) = (s \<noteq> [])"
| "truthy (JList xs) = (xs \<noteq> [])"
| "truthy (JObj kvs) = (kvs \<noteq> [])"

section \<open>The questionnaire index (lines 345-359)\<close>

text \<open>One value of \<open>questions_mapping\<close>: \<open>{'text': question_text, 'choices': choices}\<close>.\<close>

record qdef =
  q_text :: json
  q_choices :: "json \<rightharpoonup> json"

text \<open>\<open>x['text'].get('#text', '')\<close>, for a question entry and for a choice entry.\<close>

definition text_of :: "json \<Rightarrow> error + json" where
  "text_of x =
     (case subscript x ''text'' of
        Inl e \<Rightarrow> Inl e
      | Inr t \<Rightarrow> get_method t ''#text'' (JStr []))"

text \<open>The inner loop \<open>for choice in item['varChoice']\<close>, filling \<open>choices\<close>.\<close>

fun index_choices :: "(json \<rightharpoonup> json) \<Rightarrow> json list \<Rightarrow> error + (json \<rightharpoonup> json)" where
  "index_choices choices [] = Inr choices"
| "index_choices choices (choice # rest) =
     (case subscript choice ''@value'' of
        Inl e \<Rightarrow> Inl e
      | Inr choice_value \<Rightarrow>
     (case text_of choice of
        Inl e \<Rightarrow> Inl e
      | Inr choice_text \<Rightarrow>
          if hashable choice_value
          then index_choices (choices(choice_value \<mapsto> choice_text)) rest
          else Inl TypeError))"

text \<open>The \<open>choices\<close> dictionary of one question entry (lines 351-357).\<close>

definition choices_of :: "json \<Rightarrow> error + (json \<rightharpoonup> json)" where
  "choices_of item =
     (if has_key item ''varChoice''
      then (case subscript item ''varChoice'' of
              Inl e \<Rightarrow> Inl e
            | Inr var_choice \<Rightarrow>
           (case iterate var_choice of
              Inl e \<Rightarrow> Inl e
            | Inr cs \<Rightarrow> index_choices Map.empty cs))
      else Inr Map.empty)"

text \<open>The body of \<open>for item in foreground_variables\<close> (lines 349-359).\<close>

definition index_item :: "(json \<rightharpoonup> qdef) \<Rightarrow> json \<Rightarrow> error + (json \<rightharpoonup> qdef)" where
  "index_item questions_mapping item =
     (case subscript item ''@name'' of
        Inl e \<Rightarrow> Inl e
      | Inr question_name \<Rightarrow>
     (case text_of item of
        Inl e \<Rightarrow> Inl e
      | Inr question_text \<Rightarrow>
     (case choices_of item of
        Inl e \<Rightarrow> Inl e
      | Inr choices \<Rightarrow>
          if hashable question_name
          then Inr (questions_mapping(question_name \<mapsto>
                      \<lparr>q_text = question_text, q_choices = choices\<rparr>))
          else Inl TypeError)))"

fun index_items :: "(json \<rightharpoonup> qdef) \<Rightarrow> json list \<Rightarrow> error + (json \<rightharpoonup> qdef)" where
  "index_items questions_mapping [] = Inr questions_mapping"
| "index_items questions_mapping (item # rest) =
     (case index_item questions_mapping item of
        Inl e \<Rightarrow> Inl e
      | Inr questions_mapping' \<Rightarrow> index_items questions_mapping' rest)"

text \<open>\<open>json_data['questionnaire']['foreground']['variable']\<close> (line 346).\<close>

definition foreground_variables :: "json \<Rightarrow> error + json" where
  "foreground_variables json_data =
     (case subscript json_data ''questionnaire'' of
        Inl e \<Rightarrow> Inl e
      | Inr questionnaire \<Rightarrow>
     (case subscript questionnaire ''foreground'' of
        Inl e \<Rightarrow> Inl e
      | Inr foreground \<Rightarrow> subscript foreground ''variable''))"

text \<open>Lines 345-359 as a whole: the index built from the parsed questionnaire.\<close>

definition build_questions_mapping :: "json \<Rightarrow> error + (json \<rightharpoonup> qdef)" where
  "build_questions_mapping json_data =
     (case foreground_variables json_data of
        Inl e \<Rightarrow> Inl e
      | Inr variables \<Rightarrow>
     (case iterate variables of
        Inl e \<Rightarrow> Inl e
      | Inr items \<Rightarrow> index_items Map.empty items))"

section \<open>Reconciling the answers (lines 361-418)\<close>

record answer_rec =
  respondent_id :: json
  survey_id :: string
  question_name :: json
  question_text :: json
  question_value :: json
  choice_text :: json

text \<open>\<open>questions_mapping.get(question_name, {}).get('text', 'Unknown Question')\<close>.\<close>

definition lookup_question_text :: "(json \<rightharpoonup> qdef) \<Rightarrow> json \<Rightarrow> error + json" where
  "lookup_question_text questions_mapping name =
     (if hashable name
      then Inr (case questions_mapping name of
                  Some qd \<Rightarrow> q_text qd
                | None \<Rightarrow> JStr ''Unknown Question'')
      else Inl TypeError)"

text \<open>
  \<open>questions_mapping.get(question_name, {}).get('choices', {}).get(question_value, 'Unknown Choice')\<close>.
\<close>

definition lookup_choice_text :: "(json \<rightharpoonup> qdef) \<Rightarrow> json \<Rightarrow> json \<Rightarrow> error + json" where
  "lookup_choice_text questions_mapping name val =
     (if hashable name
      then (if hashable val
            then Inr (case questions_mapping name of
                        Some qd \<Rightarrow> (case q_choices qd val of
                                      Some t \<Rightarrow> t
                                    | None \<Rightarrow> JStr ''Unknown Choice'')
                      | None \<Rightarrow> JStr ''Unknown Choice'')
            else Inl TypeError)
      else Inl TypeError)"

text \<open>\<open>data['respondentanswer']['answer'].get(key, [])\<close>, iterated (lines 369, 377, 400).\<close>

definition answer_entries :: "json \<Rightarrow> string \<Rightarrow> error + json list" where
  "answer_entries data key =
     (case subscript data ''respondentanswer'' of
        Inl e \<Rightarrow> Inl e
      | Inr ra \<Rightarrow>
     (case subscript ra ''answer'' of
        Inl e \<Rightarrow> Inl e
      | Inr ans \<Rightarrow>
     (case get_method ans key (JList []) of
        Inl e \<Rightarrow> Inl e
      | Inr entries \<Rightarrow> iterate entries)))"

text \<open>
  \<open>next((item['#text'] for item in ... if item['@name'] == question_name), None)\<close>
  (lines 376-379): the text of the first entry carrying the name.
\<close>

fun find_text_answer :: "json list \<Rightarrow> json \<Rightarrow> error + json" where
  "find_text_answer [] name = Inr JNull"
| "find_text_answer (item # rest) name =
     (case subscript item ''@name'' of
        Inl e \<Rightarrow> Inl e
      | Inr n \<Rightarrow> if n = name then subscript item ''#text''
                else find_text_answer rest name)"

text \<open>The body of the loop over \<open>valueSingle\<close> (lines 370-398): the record it appends.\<close>

definition choice_record ::
  "json \<Rightarrow> string \<Rightarrow> (json \<rightharpoonup> qdef) \<Rightarrow> json \<Rightarrow> json \<Rightarrow> error + answer_rec" where
  "choice_record rid sid questions_mapping data answer =
     (case subscript answer ''@name'' of
        Inl e \<Rightarrow> Inl e
      | Inr name \<Rightarrow>
     (case lookup_question_text questions_mapping name of
        Inl e \<Rightarrow> Inl e
      | Inr qtext \<Rightarrow>
     (case subscript answer ''choice'' of
        Inl e \<Rightarrow> Inl e
      | Inr choice \<Rightarrow>
     (case subscript choice ''@value'' of
        Inl e \<Rightarrow> Inl e
      | Inr val \<Rightarrow>
     (case lookup_choice_text questions_mapping name val of
        Inl e \<Rightarrow> Inl e
      | Inr ctext \<Rightarrow>
     (case answer_entries data ''valueText'' of
        Inl e \<Rightarrow> Inl e
      | Inr items \<Rightarrow>
     (case find_text_answer items name of
        Inl e \<Rightarrow> Inl e
      | Inr text_answer \<Rightarrow>
          Inr \<lparr>respondent_id = rid, survey_id = sid, question_name = name,
               question_text = qtext, question_value = val,
               choice_text = (if truthy text_answer then text_answer else ctext)\<rparr>)))))))"

fun pass1 ::
  "json \<Rightarrow> string \<Rightarrow> (json \<rightharpoonup> qdef) \<Rightarrow> json \<Rightarrow> json list \<Rightarrow> answer_rec list
     \<Rightarrow> error + answer_rec list" where
  "pass1 rid sid qm data [] answers = Inr answers"
| "pass1 rid sid qm data (answer # rest) answers =
     (case choice_record rid sid qm data answer of
        Inl e \<Rightarrow> Inl e
      | Inr r \<Rightarrow> pass1 rid sid qm data rest (answers @ [r]))"

text \<open>The loop over \<open>valueText\<close> (lines 400-416).\<close>

fun pass2 ::
  "json \<Rightarrow> string \<Rightarrow> (json \<rightharpoonup> qdef) \<Rightarrow> json list \<Rightarrow> answer_rec list
     \<Rightarrow> error + answer_rec list" where
  "pass2 rid sid qm [] answers = Inr answers"
| "pass2 rid sid qm (answer # rest) answers =
     (case subscript answer ''@name'' of
        Inl e \<Rightarrow> Inl e
      | Inr name \<Rightarrow>
          if \<not> list_ex (\<lambda>a. question_name a = name) answers
          then (case lookup_question_text qm name of
                  Inl e \<Rightarrow> Inl e
                | Inr qtext \<Rightarrow>
               (case get_method answer ''#text'' JNull of
                  Inl e \<Rightarrow> Inl e
                | Inr text_answer \<Rightarrow>
                    if text_answer = JNull
                    then pass2 rid sid qm rest answers
                    else pass2 rid sid qm rest
                           (answers @ [\<lparr>respondent_id = rid, survey_id = sid,
                                        question_name = name, question_text = qtext,
                                        question_value = JNull,
                                        choice_text = text_answer\<rparr>])))
          else pass2 rid sid qm rest answers)"

text \<open>
  \<open>get_answers\<close> from line 345 on, as a function of \<open>self.survey_id\<close>, the parsed
  questionnaire \<open>json_data\<close> and the parsed respondent document \<open>data\<close>; the two HTTP
  requests and the XML parsing before it are outside the model.
\<close>

definition get_answers :: "string \<Rightarrow> json \<Rightarrow> json \<Rightarrow> error + answer_rec list" where
  "get_answers sid json_data data =
     (case build_questions_mapping json_data of
        Inl e \<Rightarrow> Inl e
      | Inr questions_mapping \<Rightarrow>
     (case subscript data ''respondentanswer'' of
        Inl e \<Rightarrow> Inl e
      | Inr ra \<Rightarrow>
     (case subscript ra ''@key'' of
        Inl e \<Rightarrow> Inl e
      | Inr rid \<Rightarrow>
     (case answer_entries data ''valueSingle'' of
        Inl e \<Rightarrow> Inl e
      | Inr singles \<Rightarrow>
     (case pass1 rid sid questions_mapping data singles [] of
        Inl e \<Rightarrow> Inl e
      | Inr answers \<Rightarrow>
     (case answer_entries data ''valueText'' of
        Inl e \<Rightarrow> Inl e
      | Inr texts \<Rightarrow> pass2 rid sid questions_mapping texts answers))))))"

section \<open>The respondent uploader\<close>

text \<open>
  \<open>CreateRespondent\<close> (src/surveyxact.utility.py, lines 220-308) and its caller
  \<open>process_base_respondents\<close> (src/process_survey.py, lines 46-115).
  The uploader acts on a remote service and on a database. Its model returns, with the
  result, the trace of the effects performed, in order. What the outside world answers
  is a parameter: it says, for each attempt of the database loop, whether
  \<open>cursor.execute\<close>, \<open>connection.commit\<close> and the reconnection
  \<open>DatabaseManager(...)\<close> succeed, and how the HTTP request ends.
\<close>

datatype event = HttpPost | DbExecute | DbCommit | DbConnect

text \<open>
  \<open>PreparationFailed\<close> is any exception raised before the request is sent: the
  \<open>KeyError\<close> of a missing column (\<open>process_survey.py\<close>, lines 59-80) or of a missing
  \<open>'accounti'\<close> (line 250), the \<open>TypeError\<close> or \<open>AttributeError\<close> of a value that is not
  a str (lines 250, 254), the \<open>UnicodeEncodeError\<close> of a str that cannot be encoded
  (line 254). \<open>RequestFailed\<close> is an exception of \<open>requests.request\<close>;
  \<open>ResponseUnusable\<close> is any exception of lines 91-96 of \<open>process_survey.py\<close>
  (\<open>response\<close> is \<open>None\<close>, or its body cannot be read). \<open>PersistFailed i\<close> is the
  exception \<open>e\<close> caught in iteration \<open>i\<close> of the database loop and raised again by
  \<open>raise e\<close>; \<open>ConnectFailed i\<close> is the exception of the reconnection in the handler
  of iteration \<open>i\<close>.
\<close>

datatype upload_error =
  PreparationFailed | RequestFailed | ResponseUnusable | PersistFailed nat | ConnectFailed nat

text \<open>
  A value of a row or of \<open>respondent_dict\<close>: a str, given by the bytes of its UTF-8
  encoding; a str that has no encoding (it holds a lone surrogate); a value that is not a
  str.
\<close>

datatype pyvalue = PyStr string | PyUnencodable | PyOther

text \<open>\<open>value + s\<close> for a str \<open>s\<close>; \<open>None\<close> stands for the \<open>TypeError\<close>.\<close>

fun plus_str :: "pyvalue \<Rightarrow> string \<Rightarrow> pyvalue option" where
  "plus_str (PyStr s) t = Some (PyStr (s @ t))"
| "plus_str PyUnencodable t = Some PyUnencodable"
| "plus_str PyOther t = None"

text \<open>\<open>value.encode().decode('latin1')\<close> returns.\<close>

fun encodes :: "pyvalue \<Rightarrow> bool" where
  "encodes (PyStr s) = True"
| "encodes PyUnencodable = False"
| "encodes PyOther = False"

text \<open>\<open>d[k] = v\<close> on a dictionary kept as an association list.\<close>

definition dict_set ::
  "(string \<times> pyvalue) list \<Rightarrow> string \<Rightarrow> pyvalue \<Rightarrow> (string \<times> pyvalue) list" where
  "dict_set d k v =
     (if map_of d k = None then d @ [(k, v)]
      else map (\<lambda>kv. if fst kv = k then (k, v) else kv) d)"

record db_env =
  execute_ok :: "nat \<Rightarrow> bool"
  commit_ok :: "nat \<Rightarrow> bool"
  connect_ok :: "nat \<Rightarrow> bool"

text \<open>
  The loop \<open>for i in range(3)\<close> of \<open>save_respondent_to_db\<close> (lines 289-305), over the
  indices still to run: \<open>break\<close> after a successful execute and commit; in the handler,
  \<open>raise e\<close> when \<open>i+1 == 3\<close>, else reconnect and \<open>continue\<close>. An exception of the
  reconnection leaves the loop.
\<close>

fun save_attempts ::
  "db_env \<Rightarrow> nat list \<Rightarrow> event list \<Rightarrow> (upload_error + unit) \<times> event list" where
  "save_attempts env [] tr = (Inr (), tr)"
| "save_attempts env (i # rest) tr =
     (if execute_ok env i \<and> commit_ok env i
      then (Inr (), tr @ [DbExecute, DbCommit])
      else
        (let tr' = tr @ (if execute_ok env i then [DbExecute, DbCommit] else [DbExecute])
         in if i + 1 = 3 then (Inl (PersistFailed i), tr')
            else if connect_ok env i then save_attempts env rest (tr' @ [DbConnect])
            else (Inl (ConnectFailed i), tr' @ [DbConnect])))"

definition save_respondent_to_db :: "db_env \<Rightarrow> (upload_error + unit) \<times> event list" where
  "save_respondent_to_db env = save_attempts env [0..<3] []"

text \<open>
  \<open>insert_respondent\<close> (lines 246-267), for the dictionary it is given, the text
  \<open>datetime.now().strftime(...)\<close> and the outcome of the request. Line 250 reads
  \<open>respondent_dict['accounti']\<close> and appends the time; line 253 stores the result under
  \<open>'requesti'\<close>; line 254 encodes every value for the payload; only then is the POST
  sent. An exception of these lines is raised with no request made. After the POST:
  \<open>None\<close> for a status other than 200, the response (here its status code) otherwise; an
  exception of the request is logged and raised again.
\<close>

datatype http_outcome = RequestRaises | Status nat

definition insert_respondent ::
  "(string \<times> pyvalue) list \<Rightarrow> string \<Rightarrow> http_outcome
     \<Rightarrow> (upload_error + nat option) \<times> event list" where
  "insert_respondent respondent_dict now_text outcome =
     (case map_of respondent_dict ''accounti'' of
        None \<Rightarrow> (Inl PreparationFailed, [])
      | Some accounti \<Rightarrow>
     (case plus_str accounti now_text of
        None \<Rightarrow> (Inl PreparationFailed, [])
      | Some requestid \<Rightarrow>
          if \<not> list_all (\<lambda>kv. encodes (snd kv)) (dict_set respondent_dict ''requesti'' requestid)
          then (Inl PreparationFailed, [])
          else (case outcome of
                  RequestRaises \<Rightarrow> (Inl RequestFailed, [HttpPost])
                | Status code \<Rightarrow> (if code \<noteq> 200 then (Inr None, [HttpPost])
                                 else (Inr (Some code), [HttpPost])))))"

text \<open>
  The dictionary literal of \<open>process_base_respondents\<close> (\<open>process_survey.py\<close>, lines
  59-80): each field with the column it is read from, in the order of the source
  (\<open>'permissi'\<close> is written twice there).
\<close>

definition respondent_columns :: "(string \<times> string) list" where
  "respondent_columns =
     [(''email'', ''EMAIL''), (''entrytyp'', ''ENTRYTYPE''), (''telco'', ''TELCO''),
      (''accounti'', ''ACCOUNTID''), (''firstnam'', ''FIRSTNAME''), (''lastnam'', ''LASTNAME''),
      (''zipcode'', ''ZIPCODE''), (''sex'', ''SEX''), (''age'', ''AGE''),
      (''kundeniv'', ''KUNDENIVEAUPRIS''), (''schannel'', ''SALESCHANNEL''),
      (''permissi'', ''PERMISSION''), (''gadato'', ''FIRSTACTIVEDATE''),
      (''salgsdat'', ''SUBSCRIBEDATE''), (''mix'', ''MIX''), (''voice'', ''VOICE''),
      (''fwa'', ''FWA''), (''mbb'', ''MBB''), (''phone'', ''PHONE''),
      (''permissi'', ''PERMISSION'')]"

text \<open>Evaluating the literal on a row: the first missing column raises \<open>KeyError\<close>.\<close>

fun build_respondent_dict ::
  "(string \<times> pyvalue) list \<Rightarrow> (string \<times> string) list \<Rightarrow> (string \<times> pyvalue) list
     \<Rightarrow> upload_error + (string \<times> pyvalue) list" where
  "build_respondent_dict r [] acc = Inr acc"
| "build_respondent_dict r (fc # rest) acc =
     (case map_of r (snd fc) of
        None \<Rightarrow> Inl PreparationFailed
      | Some v \<Rightarrow> build_respondent_dict r rest (dict_set acc (fst fc) v))"

text \<open>
  One iteration of the loop of \<open>process_base_respondents\<close> (\<open>process_survey.py\<close>, lines
  58-112): the dictionary, the submission, the reading of the response, the persistence.
  \<open>body_ok\<close> says whether lines 91-96 succeed on a response.
\<close>

record respondent_env =
  row :: "(string \<times> pyvalue) list"
  now_text :: string
  http :: http_outcome
  body_ok :: bool
  db :: db_env

definition process_respondent :: "respondent_env \<Rightarrow> (upload_error + unit) \<times> event list" where
  "process_respondent r =
     (case build_respondent_dict (row r) respondent_columns [] of
        Inl e \<Rightarrow> (Inl e, [])
      | Inr respondent_dict \<Rightarrow>
     (case insert_respondent respondent_dict (now_text r) (http r) of
        (Inl e, tr) \<Rightarrow> (Inl e, tr)
      | (Inr None, tr) \<Rightarrow> (Inl ResponseUnusable, tr)
      | (Inr (Some response), tr) \<Rightarrow>
          if \<not> body_ok r then (Inl ResponseUnusable, tr)
          else (case save_respondent_to_db (db r) of (res, tr') \<Rightarrow> (res, tr @ tr'))))"

text \<open>The loop over the respondents: no exception is caught, so the first one ends it.\<close>

fun process_base_respondents ::
  "respondent_env list \<Rightarrow> event list \<Rightarrow> (upload_error + unit) \<times> event list" where
  "process_base_respondents [] tr = (Inr (), tr)"
| "process_base_respondents (r # rest) tr =
     (case process_respondent r of
        (Inl e, tr') \<Rightarrow> (Inl e, tr @ tr')
      | (Inr u, tr') \<Rightarrow> process_base_respondents rest (tr @ tr'))"

text \<open>
  The request can be prepared from the dictionary: \<open>'accounti'\<close> is there with a str
  that encodes, and so does every value but the one under \<open>'requesti'\<close>, which line 253
  overwrites.
\<close>

definition request_prepares :: "(string \<times> pyvalue) list \<Rightarrow> bool" where
  "request_prepares d \<longleftrightarrow>
     (case map_of d ''accounti'' of Some (PyStr s) \<Rightarrow> True | _ \<Rightarrow> False) \<and>
     list_all (\<lambda>kv. fst kv = ''requesti'' \<or> encodes (snd kv)) d"

text \<open>
  Sample databases: one that refuses every insert, one that accepts the second, one that
  cannot be reached again after a refused insert. Sample rows: one with every column, and
  the same with an e-mail address that cannot be encoded.
\<close>

definition db_always_fails :: db_env where
  "db_always_fails =
     \<lparr>execute_ok = (\<lambda>i. False), commit_ok = (\<lambda>i. True), connect_ok = (\<lambda>i. True)\<rparr>"

definition db_second_try :: db_env where
  "db_second_try =
     \<lparr>execute_ok = (\<lambda>i. i = 1), commit_ok = (\<lambda>i. True), connect_ok = (\<lambda>i. True)\<rparr>"

definition db_unreachable :: db_env where
  "db_unreachable =
     \<lparr>execute_ok = (\<lambda>i. False), commit_ok = (\<lambda>i. True), connect_ok = (\<lambda>i. False)\<rparr>"

definition sample_row :: "(string \<times> pyvalue) list" where
  "sample_row = map (\<lambda>c. (c, PyStr ''x'')) (remdups (map snd respondent_columns))"

definition sample_row_bad :: "(string \<times> pyvalue) list" where
  "sample_row_bad = dict_set sample_row ''EMAIL'' PyUnencodable"

section \<open>Vocabulary of the properties\<close>

text \<open>
  The record \<open>r\<close> comes from the \<open>valueSingle\<close> entry \<open>a\<close>: it carries the entry's name
  and its coded value.
\<close>

definition from_choice :: "json \<Rightarrow> answer_rec \<Rightarrow> bool" where
  "from_choice a r \<longleftrightarrow>
     subscript a ''@name'' = Inr (question_name r) \<and>
     (case subscript a ''choice'' of
        Inl e \<Rightarrow> False
      | Inr c \<Rightarrow> subscript c ''@value'' = Inr (question_value r))"

text \<open>
  The record \<open>r\<close> comes from the \<open>valueText\<close> entry \<open>a\<close>: it carries the entry's name
  and its text, which is not \<open>None\<close>, and no coded value.
\<close>

definition from_text :: "json \<Rightarrow> answer_rec \<Rightarrow> bool" where
  "from_text a r \<longleftrightarrow>
     subscript a ''@name'' = Inr (question_name r) \<and>
     get_method a ''#text'' JNull = Inr (choice_text r) \<and>
     choice_text r \<noteq> JNull \<and>
     question_value r = JNull"

text \<open>All six fields of the record the second loop appends for the entry \<open>a\<close>.\<close>

definition text_record ::
  "json \<Rightarrow> string \<Rightarrow> (json \<rightharpoonup> qdef) \<Rightarrow> json \<Rightarrow> answer_rec \<Rightarrow> bool" where
  "text_record rid sid qm a r \<longleftrightarrow>
     from_text a r \<and>
     lookup_question_text qm (question_name r) = Inr (question_text r) \<and>
     respondent_id r = rid \<and> survey_id r = sid"

text \<open>
  No \<open>valueText\<close> entry of the list carries the name together with a text that counts as
  true in \<open>if text_answer:\<close>.
\<close>

definition no_text_override :: "json list \<Rightarrow> json \<Rightarrow> bool" where
  "no_text_override texts name \<longleftrightarrow>
     list_all (\<lambda>item. subscript item ''@name'' = Inr name \<longrightarrow>
                 (case subscript item ''#text'' of
                    Inl e \<Rightarrow> True
                  | Inr t \<Rightarrow> \<not> truthy t)) texts"


text \<open>
  A text block without a body: the entry's \<open>text\<close> element is a dictionary with no
  \<open>'#text'\<close> key (what the XML parser gives for an element that has attributes and no
  character data).
\<close>

definition bodyless :: "json \<Rightarrow> bool" where
  "bodyless x \<longleftrightarrow>
     (case subscript x ''text'' of
        Inr (JObj kvs) \<Rightarrow> map_of kvs ''#text'' = None
      | _ \<Rightarrow> False)"

text \<open>The entry's \<open>text\<close> element is a dictionary, with or without a body.\<close>

definition text_block :: "json \<Rightarrow> bool" where
  "text_block x \<longleftrightarrow>
     (case subscript x ''text'' of
        Inr (JObj kvs) \<Rightarrow> True
      | _ \<Rightarrow> False)"

text \<open>A choice entry with a hashable \<open>@value\<close> and a text block.\<close>

definition choice_entry :: "json \<Rightarrow> bool" where
  "choice_entry c \<longleftrightarrow>
     (case subscript c ''@value'' of Inr v \<Rightarrow> hashable v | Inl e \<Rightarrow> False) \<and> text_block c"

text \<open>
  A question entry with a hashable \<open>@name\<close>, a text block and, when it has a
  \<open>varChoice\<close> key, a list of choice entries under it.
\<close>

definition question_entry :: "json \<Rightarrow> bool" where
  "question_entry item \<longleftrightarrow>
     (case subscript item ''@name'' of Inr n \<Rightarrow> hashable n | Inl e \<Rightarrow> False) \<and>
     text_block item \<and>
     (has_key item ''varChoice'' \<longrightarrow>
        (case subscript item ''varChoice'' of
           Inr (JList cs) \<Rightarrow> list_all choice_entry cs
         | _ \<Rightarrow> False))"




section \<open>Sample documents\<close>

text \<open>
  A questionnaire with a question \<open>Q1\<close> of three choices, the third with a text block
  that has no body, and a free-text question \<open>Q2\<close> whose text block has no body; and
  respondent documents over it.
\<close>

definition choice_entry_example :: "string \<Rightarrow> (string \<times> json) list \<Rightarrow> json" where
  "choice_entry_example val text_block_kvs =
     JObj [(''@value'', JStr val), (''text'', JObj text_block_kvs)]"

definition question_q1 :: json where
  "question_q1 =
     JObj [(''@name'', JStr ''Q1''),
           (''text'', JObj [(''@lang'', JStr ''da''), (''#text'', JStr ''Happy?'')]),
           (''varChoice'', JList [
              choice_entry_example ''1'' [(''@lang'', JStr ''da''), (''#text'', JStr ''Yes'')],
              choice_entry_example ''2'' [(''@lang'', JStr ''da''), (''#text'', JStr ''No'')],
              choice_entry_example ''3'' [(''@lang'', JStr ''da'')]])]"

definition question_q2 :: json where
  "question_q2 = JObj [(''@name'', JStr ''Q2''), (''text'', JObj [(''@lang'', JStr ''da'')])]"

definition questionnaire_example :: json where
  "questionnaire_example =
     JObj [(''questionnaire'',
       JObj [(''foreground'', JObj [(''variable'', JList [question_q1, question_q2])])])]"

text \<open>The index of \<open>questionnaire_example\<close>.\<close>

definition questions_mapping_example :: "json \<rightharpoonup> qdef" where
  "questions_mapping_example =
     [JStr ''Q1'' \<mapsto> \<lparr>q_text = JStr ''Happy?'',
                        q_choices = [JStr ''1'' \<mapsto> JStr ''Yes'', JStr ''2'' \<mapsto> JStr ''No'',
                                     JStr ''3'' \<mapsto> JStr []]\<rparr>,
      JStr ''Q2'' \<mapsto> \<lparr>q_text = JStr [], q_choices = Map.empty\<rparr>]"

definition respondent_doc :: "json list \<Rightarrow> json list \<Rightarrow> json" where
  "respondent_doc singles texts =
     JObj [(''respondentanswer'', JObj [(''@key'', JStr ''R1''),
       (''answer'', JObj [(''valueSingle'', JList singles), (''valueText'', JList texts)])])]"

definition single_entry :: "string \<Rightarrow> string \<Rightarrow> json" where
  "single_entry name val =
     JObj [(''@name'', JStr name), (''choice'', JObj [(''@value'', JStr val)])]"

definition text_entry :: "string \<Rightarrow> string \<Rightarrow> json" where
  "text_entry name txt = JObj [(''@name'', JStr name), (''#text'', JStr txt)]"

text \<open>A \<open>valueText\<close> element without character data, as parsed.\<close>

definition empty_text_entry :: "string \<Rightarrow> json" where
  "empty_text_entry name = JObj [(''@name'', JStr name)]"

text \<open>
  A question whose \<open>text\<close> element is empty and has no attributes, which parses to
  \<open>None\<close>, and a questionnaire holding it.
\<close>

definition question_q3 :: json where
  "question_q3 = JObj [(''@name'', JStr ''Q3''), (''text'', JNull)]"

definition questionnaire_empty_text :: json where
  "questionnaire_empty_text =
     JObj [(''questionnaire'',
       JObj [(''foreground'', JObj [(''variable'', JList [question_q2, question_q3])])])]"

lemmas eval_defs = empty_text_entry_def question_q3_def questionnaire_empty_text_def
  get_answers_def build_questions_mapping_def foreground_variables_def
  index_item_def text_of_def choices_of_def answer_entries_def choice_record_def
  lookup_question_text_def lookup_choice_text_def questionnaire_example_def respondent_doc_def
  single_entry_def text_entry_def question_q1_def question_q2_def choice_entry_example_def

section \<open>Shape of a successful run\<close>

lemma get_answers_Inr:
  assumes "get_answers sid json_data data = Inr out"
  shows "\<exists>qm ra rid singles texts answers.
           build_questions_mapping json_data = Inr qm \<and>
           subscript data ''respondentanswer'' = Inr ra \<and>
           subscript ra ''@key'' = Inr rid \<and>
           answer_entries data ''valueSingle'' = Inr singles \<and>
           pass1 rid sid qm data singles [] = Inr answers \<and>
           answer_entries data ''valueText'' = Inr texts \<and>
           pass2 rid sid qm texts answers = Inr out"
  using assms unfolding get_answers_def by (simp split: sum.splits)

lemma choice_record_fields:
  assumes "choice_record rid sid qm data a = Inr r"
  shows "subscript a ''@name'' = Inr (question_name r)"
    and "lookup_question_text qm (question_name r) = Inr (question_text r)"
    and "\<exists>c. subscript a ''choice'' = Inr c \<and> subscript c ''@value'' = Inr (question_value r)"
    and "\<exists>items t ctext. answer_entries data ''valueText'' = Inr items \<and>
           find_text_answer items (question_name r) = Inr t \<and>
           lookup_choice_text qm (question_name r) (question_value r) = Inr ctext \<and>
           choice_text r = (if truthy t then t else ctext)"
  using assms unfolding choice_record_def by (auto split: sum.splits)

text \<open>The first loop appends one record per entry, in order.\<close>

lemma pass1_struct:
  "pass1 rid sid qm data vs acc = Inr out \<Longrightarrow>
   \<exists>recs. out = acc @ recs \<and> list_all2 (\<lambda>a r. choice_record rid sid qm data a = Inr r) vs recs"
proof (induction vs arbitrary: acc)
  case Nil
  then show ?case by simp
next
  case (Cons a vs)
  from Cons.prems obtain r where r: "choice_record rid sid qm data a = Inr r"
    and rest: "pass1 rid sid qm data vs (acc @ [r]) = Inr out"
    by (auto split: sum.splits)
  from Cons.IH [OF rest] obtain recs where "out = (acc @ [r]) @ recs"
    and "list_all2 (\<lambda>a r. choice_record rid sid qm data a = Inr r) vs recs" by blast
  with r show ?case by (intro exI [of _ "r # recs"]) simp
qed

lemma pass1_names:
  assumes "list_all2 (\<lambda>a r. choice_record rid sid qm data a = Inr r) vs recs"
  shows "map (\<lambda>a. subscript a ''@name'') vs = map (\<lambda>r. Inr (question_name r)) recs"
  using assms by (induction rule: list_all2_induct) (simp_all add: choice_record_fields(1))

text \<open>One iteration of the second loop either leaves the list alone or appends a record
  whose name is not yet in it.\<close>

lemma pass2_step:
  assumes "pass2 rid sid qm (a # vt) acc = Inr out"
  shows "pass2 rid sid qm vt acc = Inr out \<or>
         (\<exists>r. text_record rid sid qm a r \<and> question_name r \<notin> question_name ` set acc \<and>
               pass2 rid sid qm vt (acc @ [r]) = Inr out)"
proof -
  from assms obtain name where name: "subscript a ''@name'' = Inr name"
    by (auto split: sum.splits)
  show ?thesis
  proof (cases "list_ex (\<lambda>r. question_name r = name) acc")
    case True
    with assms name show ?thesis by simp
  next
    case False
    then have fresh: "name \<notin> question_name ` set acc" by (auto simp: list_ex_iff)
    from False assms name obtain qtext where qtext: "lookup_question_text qm name = Inr qtext"
      by (auto split: sum.splits)
    from False assms name qtext obtain t where t: "get_method a ''#text'' JNull = Inr t"
      by (auto split: sum.splits)
    show ?thesis
    proof (cases "t = JNull")
      case True
      with False assms name qtext t show ?thesis by simp
    next
      case nonnull: False
      let ?r = "\<lparr>respondent_id = rid, survey_id = sid, question_name = name,
                 question_text = qtext, question_value = JNull, choice_text = t\<rparr>"
      from False nonnull assms name qtext t
      have "pass2 rid sid qm vt (acc @ [?r]) = Inr out" by simp
      moreover have "text_record rid sid qm a ?r"
        using name qtext t nonnull by (simp add: text_record_def from_text_def)
      ultimately show ?thesis using fresh by (intro disjI2 exI [of _ ?r]) simp
    qed
  qed
qed

lemma pass2_struct:
  "pass2 rid sid qm vt acc = Inr out \<Longrightarrow>
   \<exists>recs kept. out = acc @ recs \<and> subseq kept vt \<and> list_all2 (text_record rid sid qm) kept recs"
proof (induction vt arbitrary: acc)
  case Nil
  then show ?case by simp
next
  case (Cons a vt)
  from pass2_step [OF Cons.prems] show ?case
  proof
    assume "pass2 rid sid qm vt acc = Inr out"
    from Cons.IH [OF this] obtain recs kept where
      "out = acc @ recs" "subseq kept vt" "list_all2 (text_record rid sid qm) kept recs" by blast
    then show ?thesis by (intro exI [of _ recs] exI [of _ kept]) auto
  next
    assume "\<exists>r. text_record rid sid qm a r \<and> question_name r \<notin> question_name ` set acc \<and>
               pass2 rid sid qm vt (acc @ [r]) = Inr out"
    then obtain r where ft: "text_record rid sid qm a r"
      and rest: "pass2 rid sid qm vt (acc @ [r]) = Inr out" by blast
    from Cons.IH [OF rest] obtain recs kept where
      "out = (acc @ [r]) @ recs" "subseq kept vt" "list_all2 (text_record rid sid qm) kept recs" by blast
    with ft show ?thesis by (intro exI [of _ "r # recs"] exI [of _ "a # kept"]) simp
  qed
qed

lemma pass2_distinct:
  "pass2 rid sid qm vt acc = Inr out \<Longrightarrow> distinct (map question_name acc) \<Longrightarrow>
   distinct (map question_name out)"
proof (induction vt arbitrary: acc)
  case Nil
  then show ?case by simp
next
  case (Cons a vt)
  from pass2_step [OF Cons.prems(1)] show ?case
  proof
    assume "pass2 rid sid qm vt acc = Inr out"
    from Cons.IH [OF this Cons.prems(2)] show ?thesis .
  next
    assume "\<exists>r. text_record rid sid qm a r \<and> question_name r \<notin> question_name ` set acc \<and>
               pass2 rid sid qm vt (acc @ [r]) = Inr out"
    then obtain r where fresh: "question_name r \<notin> question_name ` set acc"
      and rest: "pass2 rid sid qm vt (acc @ [r]) = Inr out" by blast
    from fresh Cons.prems(2) have "distinct (map question_name (acc @ [r]))" by simp
    from Cons.IH [OF rest this] show ?thesis .
  qed
qed

text \<open>
  A successful run returns the records of the first loop, one per \<open>valueSingle\<close> entry,
  followed by the records of the second loop, which come from a subsequence of the
  \<open>valueText\<close> entries.
\<close>

lemma list_all2_right_source:
  "list_all2 P xs ys \<Longrightarrow> y \<in> set ys \<Longrightarrow> \<exists>x \<in> set xs. P x y"
  by (induction rule: list_all2_induct) auto

lemma get_answers_parts:
  assumes "get_answers sid json_data data = Inr out"
  shows "\<exists>qm singles texts.
           build_questions_mapping json_data = Inr qm \<and>
           answer_entries data ''valueSingle'' = Inr singles \<and>
           answer_entries data ''valueText'' = Inr texts"
  using get_answers_Inr [OF assms] by blast

lemma get_answers_shape:
  assumes "get_answers sid json_data data = Inr out"
    and "build_questions_mapping json_data = Inr qm"
    and "answer_entries data ''valueSingle'' = Inr singles"
    and "answer_entries data ''valueText'' = Inr texts"
  shows "\<exists>rid recs1 recs2 kept.
           out = recs1 @ recs2 \<and>
           list_all2 (\<lambda>a r. choice_record rid sid qm data a = Inr r) singles recs1 \<and>
           subseq kept texts \<and>
           list_all2 (text_record rid sid qm) kept recs2"
proof -
  from get_answers_Inr [OF assms(1)] assms(2,3,4) obtain rid answers where
    p1: "pass1 rid sid qm data singles [] = Inr answers" and
    p2: "pass2 rid sid qm texts answers = Inr out" by auto
  from pass1_struct [OF p1] have
    l1: "list_all2 (\<lambda>a r. choice_record rid sid qm data a = Inr r) singles answers" by simp
  from pass2_struct [OF p2] obtain recs kept where
    "out = answers @ recs" "subseq kept texts" "list_all2 (text_record rid sid qm) kept recs"
    by blast
  with l1 show ?thesis by blast
qed

lemma choice_record_at:
  assumes "get_answers sid json_data data = Inr out"
    and "build_questions_mapping json_data = Inr qm"
    and "answer_entries data ''valueSingle'' = Inr singles"
    and "i < length singles"
  shows "\<exists>rid. choice_record rid sid qm data (singles ! i) = Inr (out ! i)"
proof -
  from get_answers_parts [OF assms(1)] obtain texts where
    t: "answer_entries data ''valueText'' = Inr texts" by blast
  from get_answers_shape [OF assms(1,2,3) t] obtain rid recs1 recs2 where
    out: "out = recs1 @ recs2" and
    l: "list_all2 (\<lambda>a r. choice_record rid sid qm data a = Inr r) singles recs1"
    by blast
  from l assms(4) have "i < length recs1" by (simp add: list_all2_lengthD)
  with out have "out ! i = recs1 ! i" by (simp add: nth_append)
  moreover from l assms(4) have "choice_record rid sid qm data (singles ! i) = Inr (recs1 ! i)"
    by (rule list_all2_nthD)
  ultimately show ?thesis by auto
qed

lemma find_text_answer_first:
  assumes "find_text_answer texts name = Inr t"
    and "find (\<lambda>item. subscript item ''@name'' = Inr name) texts = Some item"
  shows "subscript item ''#text'' = Inr t"
  using assms by (induction texts) (auto split: sum.splits if_splits)

lemma find_text_answer_no_override:
  assumes "find_text_answer texts name = Inr t"
    and "no_text_override texts name"
  shows "\<not> truthy t"
  using assms unfolding no_text_override_def
  by (induction texts) (auto split: sum.splits if_splits)

lemma question_text_resolved:
  assumes "get_answers sid json_data data = Inr out"
    and "build_questions_mapping json_data = Inr qm"
    and "r \<in> set out"
  shows "lookup_question_text qm (question_name r) = Inr (question_text r)"
proof -
  from get_answers_parts [OF assms(1)] obtain singles texts where
    s: "answer_entries data ''valueSingle'' = Inr singles" and
    t: "answer_entries data ''valueText'' = Inr texts" by blast
  from get_answers_shape [OF assms(1,2) s t] obtain rid recs1 recs2 kept where
    out: "out = recs1 @ recs2" and
    l1: "list_all2 (\<lambda>a r. choice_record rid sid qm data a = Inr r) singles recs1" and
    l2: "list_all2 (text_record rid sid qm) kept recs2"
    by blast
  from assms(3) out consider "r \<in> set recs1" | "r \<in> set recs2" by auto
  then show ?thesis
  proof cases
    case 1
    with l1 obtain a where "choice_record rid sid qm data a = Inr r"
      by (blast dest: list_all2_right_source)
    then show ?thesis by (rule choice_record_fields(2))
  next
    case 2
    with l2 obtain a where "text_record rid sid qm a r"
      by (blast dest: list_all2_right_source)
    then show ?thesis by (simp add: text_record_def)
  qed
qed

text \<open>The index of the sample questionnaire.\<close>

lemma questions_mapping_example_built:
  "build_questions_mapping questionnaire_example = Inr questions_mapping_example"
  by (simp add: eval_defs questions_mapping_example_def)

section \<open>C1: one record per question name\<close>

text \<open>
  Without a condition on the input, two records of the output can share a
  \<open>question_name\<close>: the first loop appends a record for every \<open>valueSingle\<close> entry
  without looking at the records already there. Two \<open>valueSingle\<close> entries for \<open>Q1\<close> give
  two records for \<open>Q1\<close>.
\<close>

theorem dedup_counterexample:
  "get_answers ''S1'' questionnaire_example
     (respondent_doc [single_entry ''Q1'' ''1'', single_entry ''Q1'' ''2''] []) =
   Inr [\<lparr>respondent_id = JStr ''R1'', survey_id = ''S1'', question_name = JStr ''Q1'',
         question_text = JStr ''Happy?'', question_value = JStr ''1'',
         choice_text = JStr ''Yes''\<rparr>,
        \<lparr>respondent_id = JStr ''R1'', survey_id = ''S1'', question_name = JStr ''Q1'',
         question_text = JStr ''Happy?'', question_value = JStr ''2'',
         choice_text = JStr ''No''\<rparr>] \<and>
   \<not> distinct (map question_name
     [\<lparr>respondent_id = JStr ''R1'', survey_id = ''S1'', question_name = JStr ''Q1'',
         question_text = JStr ''Happy?'', question_value = JStr ''1'',
         choice_text = JStr ''Yes''\<rparr>,
      \<lparr>respondent_id = JStr ''R1'', survey_id = ''S1'', question_name = JStr ''Q1'',
         question_text = JStr ''Happy?'', question_value = JStr ''2'',
         choice_text = JStr ''No''\<rparr>])"
  by (simp add: eval_defs)

text \<open>
  C1, amended: when get_answers returns a list, its records have pairwise distinct
  \<open>question_name\<close>s exactly when the \<open>valueSingle\<close> entries of the respondent document
  have pairwise distinct names. Several \<open>valueText\<close> entries for one question, or a
  \<open>valueText\<close> entry for a question that also has a \<open>valueSingle\<close> entry, never add a
  second record.
\<close>

theorem dedup_iff_distinct_singles:
  assumes "get_answers sid json_data data = Inr out"
    and "answer_entries data ''valueSingle'' = Inr singles"
  shows "distinct (map question_name out) \<longleftrightarrow>
         distinct (map (\<lambda>a. subscript a ''@name'') singles)"
proof -
  from get_answers_Inr [OF assms(1)] assms(2) obtain qm rid texts answers where
    p1: "pass1 rid sid qm data singles [] = Inr answers" and
    p2: "pass2 rid sid qm texts answers = Inr out" by auto
  from pass1_struct [OF p1] have
    l: "list_all2 (\<lambda>a r. choice_record rid sid qm data a = Inr r) singles answers" by simp
  have "map (\<lambda>a. subscript a ''@name'') singles = map Inr (map question_name answers)"
    using pass1_names [OF l] by simp
  then have eq: "distinct (map (\<lambda>a. subscript a ''@name'') singles) \<longleftrightarrow>
                 distinct (map question_name answers)"
    by (simp only: distinct_map) auto
  from pass2_struct [OF p2] obtain recs where out: "out = answers @ recs" by blast
  show ?thesis
  proof
    assume "distinct (map question_name out)"
    with out have "distinct (map question_name answers)" by simp
    with eq show "distinct (map (\<lambda>a. subscript a ''@name'') singles)" by simp
  next
    assume "distinct (map (\<lambda>a. subscript a ''@name'') singles)"
    with eq have "distinct (map question_name answers)" by simp
    from pass2_distinct [OF p2 this] show "distinct (map question_name out)" .
  qed
qed

theorem dedup_iff_distinct_singles_witness:
  "get_answers ''S1'' questionnaire_example
     (respondent_doc [single_entry ''Q1'' ''1'']
        [text_entry ''Q1'' ''Maybe'', text_entry ''Q2'' ''free'', text_entry ''Q2'' ''again'']) =
   Inr [\<lparr>respondent_id = JStr ''R1'', survey_id = ''S1'', question_name = JStr ''Q1'',
         question_text = JStr ''Happy?'', question_value = JStr ''1'',
         choice_text = JStr ''Maybe''\<rparr>,
        \<lparr>respondent_id = JStr ''R1'', survey_id = ''S1'', question_name = JStr ''Q2'',
         question_text = JStr [], question_value = JNull, choice_text = JStr ''free''\<rparr>] \<and>
   distinct (map question_name
     [\<lparr>respondent_id = JStr ''R1'', survey_id = ''S1'', question_name = JStr ''Q1'',
         question_text = JStr ''Happy?'', question_value = JStr ''1'',
         choice_text = JStr ''Maybe''\<rparr>,
      \<lparr>respondent_id = JStr ''R1'', survey_id = ''S1'', question_name = JStr ''Q2'',
         question_text = JStr [], question_value = JNull, choice_text = JStr ''free''\<rparr>])"
proof -
  let ?d = "respondent_doc [single_entry ''Q1'' ''1'']
              [text_entry ''Q1'' ''Maybe'', text_entry ''Q2'' ''free'', text_entry ''Q2'' ''again'']"
  have run: "get_answers ''S1'' questionnaire_example ?d =
     Inr [\<lparr>respondent_id = JStr ''R1'', survey_id = ''S1'', question_name = JStr ''Q1'',
           question_text = JStr ''Happy?'', question_value = JStr ''1'',
           choice_text = JStr ''Maybe''\<rparr>,
          \<lparr>respondent_id = JStr ''R1'', survey_id = ''S1'', question_name = JStr ''Q2'',
           question_text = JStr [], question_value = JNull, choice_text = JStr ''free''\<rparr>]"
    by (simp add: eval_defs)
  have entries: "answer_entries ?d ''valueSingle'' = Inr [single_entry ''Q1'' ''1'']"
    by (simp add: eval_defs)
  have "distinct (map (\<lambda>a. subscript a ''@name'') [single_entry ''Q1'' ''1''])" by simp
  with dedup_iff_distinct_singles [OF run entries] run show ?thesis by blast
qed

section \<open>C2: a free text overrides the coded choice text\<close>

text \<open>
  On a run that returns, the record of a \<open>valueSingle\<close> entry carries the entry's coded
  value, and the text of the first \<open>valueText\<close> entry of the same name when that text
  is non-empty, as every parsed text is.
\<close>

lemma override_when_text_present:
  assumes "get_answers sid json_data data = Inr out"
    and "answer_entries data ''valueSingle'' = Inr singles"
    and "answer_entries data ''valueText'' = Inr texts"
    and "i < length singles"
    and "subscript (singles ! i) ''@name'' = Inr name"
    and "find (\<lambda>item. subscript item ''@name'' = Inr name) texts = Some item"
    and "subscript item ''#text'' = Inr t"
    and "truthy t"
  shows "question_name (out ! i) = name \<and> choice_text (out ! i) = t \<and> from_choice (singles ! i) (out ! i)"
proof -
  from get_answers_Inr [OF assms(1)] obtain qm where
    qm: "build_questions_mapping json_data = Inr qm" by blast
  from choice_record_at [OF assms(1) qm assms(2,4)] obtain rid where
    cr: "choice_record rid sid qm data (singles ! i) = Inr (out ! i)" by blast
  from choice_record_fields(1) [OF cr] assms(5) have n: "question_name (out ! i) = name" by simp
  from choice_record_fields(4) [OF cr] assms(3) n obtain t' ctext where
    f: "find_text_answer texts name = Inr t'" and
    c: "choice_text (out ! i) = (if truthy t' then t' else ctext)" by auto
  from find_text_answer_first [OF f assms(6)] assms(7) have "t' = t" by simp
  with c assms(8) have "choice_text (out ! i) = t" by simp
  moreover have "from_choice (singles ! i) (out ! i)"
    using choice_record_fields(1,3) [OF cr] by (auto simp: from_choice_def)
  ultimately show ?thesis using n by simp
qed

text \<open>
  The text is read with \<open>item['#text']\<close> (line 377), not with \<open>.get\<close> as in the second
  loop (line 404): when the first \<open>valueText\<close> entry of the name has no \<open>'#text'\<close> key,
  no run returns.
\<close>

lemma missing_text_of_coded_question_raises:
  assumes "answer_entries data ''valueSingle'' = Inr singles"
    and "answer_entries data ''valueText'' = Inr texts"
    and "i < length singles"
    and "subscript (singles ! i) ''@name'' = Inr name"
    and "find (\<lambda>item. subscript item ''@name'' = Inr name) texts = Some item"
    and "subscript item ''#text'' = Inl e"
  shows "\<exists>e'. get_answers sid json_data data = Inl e'"
proof (cases "get_answers sid json_data data")
  case (Inl e')
  then show ?thesis by blast
next
  case (Inr out)
  from get_answers_parts [OF Inr] obtain qm where
    qm: "build_questions_mapping json_data = Inr qm" by blast
  from choice_record_at [OF Inr qm assms(1,3)] obtain rid where
    cr: "choice_record rid sid qm data (singles ! i) = Inr (out ! i)" by blast
  from choice_record_fields(1) [OF cr] assms(4) have n: "question_name (out ! i) = name" by simp
  from choice_record_fields(4) [OF cr] assms(2) n obtain t where
    f: "find_text_answer texts name = Inr t" by auto
  from find_text_answer_first [OF f assms(5)] assms(6) show ?thesis by simp
qed

text \<open>
  C2, on an input the code breaks on: a coded answer for \<open>Q1\<close> together with an empty
  \<open>valueText\<close> element for \<open>Q1\<close>. The claim has a record emitted for \<open>Q1\<close>, with the
  coded value \<open>1\<close> as \<open>question_value\<close>; the code raises \<open>KeyError('#text')\<close> and
  returns nothing.
\<close>

theorem text_override_missing_text_raises:
  "get_answers ''S1'' questionnaire_example
     (respondent_doc [single_entry ''Q1'' ''1'', single_entry ''Q3'' ''2'']
        [empty_text_entry ''Q1'', text_entry ''Q2'' ''free comment'']) =
   Inl (KeyError ''#text'')"
  by (simp add: eval_defs)

section \<open>C3: a text answer without text leaves no record\<close>





section \<open>C4: unknown choice\<close>

text \<open>
  C4: a \<open>valueSingle\<close> entry whose question is in the index, whose coded value is not a
  key of that question's choices, and which no non-empty text answer overrides, yields a
  record with \<open>choice_text = 'Unknown Choice'\<close>.
\<close>

theorem unknown_choice_sentinel:
  assumes "get_answers sid json_data data = Inr out"
    and "build_questions_mapping json_data = Inr qm"
    and "answer_entries data ''valueSingle'' = Inr singles"
    and "answer_entries data ''valueText'' = Inr texts"
    and "i < length singles"
    and "subscript (singles ! i) ''@name'' = Inr name"
    and "subscript (singles ! i) ''choice'' = Inr c"
    and "subscript c ''@value'' = Inr val"
    and "qm name = Some qd"
    and "q_choices qd val = None"
    and "no_text_override texts name"
  shows "question_name (out ! i) = name \<and> question_value (out ! i) = val \<and>
         choice_text (out ! i) = JStr ''Unknown Choice''"
proof -
  from choice_record_at [OF assms(1,2,3,5)] obtain rid where
    cr: "choice_record rid sid qm data (singles ! i) = Inr (out ! i)" by blast
  from choice_record_fields(1) [OF cr] assms(6) have n: "question_name (out ! i) = name" by simp
  from choice_record_fields(3) [OF cr] assms(7,8) have v: "question_value (out ! i) = val" by simp
  from choice_record_fields(4) [OF cr] assms(4) n v obtain t ctext where
    f: "find_text_answer texts name = Inr t" and
    l: "lookup_choice_text qm name val = Inr ctext" and
    c: "choice_text (out ! i) = (if truthy t then t else ctext)" by auto
  from find_text_answer_no_override [OF f assms(11)] c have "choice_text (out ! i) = ctext" by simp
  moreover from l assms(9,10) have "ctext = JStr ''Unknown Choice''"
    by (auto simp: lookup_choice_text_def split: if_splits)
  ultimately show ?thesis using n v by simp
qed

theorem unknown_choice_sentinel_witness:
  "get_answers ''S1'' questionnaire_example
     (respondent_doc [single_entry ''Q1'' ''9''] [text_entry ''Q1'' []]) =
   Inr [\<lparr>respondent_id = JStr ''R1'', survey_id = ''S1'', question_name = JStr ''Q1'',
         question_text = JStr ''Happy?'', question_value = JStr ''9'',
         choice_text = JStr ''Unknown Choice''\<rparr>] \<and>
   choice_text
     ([\<lparr>respondent_id = JStr ''R1'', survey_id = ''S1'', question_name = JStr ''Q1'',
         question_text = JStr ''Happy?'', question_value = JStr ''9'',
         choice_text = JStr ''Unknown Choice''\<rparr>] ! 0) = JStr ''Unknown Choice''"
proof -
  let ?d = "respondent_doc [single_entry ''Q1'' ''9''] [text_entry ''Q1'' []]"
  let ?out = "[\<lparr>respondent_id = JStr ''R1'', survey_id = ''S1'', question_name = JStr ''Q1'',
         question_text = JStr ''Happy?'', question_value = JStr ''9'',
         choice_text = JStr ''Unknown Choice''\<rparr>]"
  let ?qd = "\<lparr>q_text = JStr ''Happy?'',
             q_choices = [JStr ''1'' \<mapsto> JStr ''Yes'', JStr ''2'' \<mapsto> JStr ''No'',
                          JStr ''3'' \<mapsto> JStr []]\<rparr>"
  have run: "get_answers ''S1'' questionnaire_example ?d = Inr ?out"
    by (simp add: eval_defs)
  have s: "answer_entries ?d ''valueSingle'' = Inr [single_entry ''Q1'' ''9'']"
    by (simp add: eval_defs)
  have t: "answer_entries ?d ''valueText'' = Inr [text_entry ''Q1'' []]"
    by (simp add: eval_defs)
  have i: "0 < length [single_entry ''Q1'' ''9'']" by simp
  have n: "subscript ([single_entry ''Q1'' ''9''] ! 0) ''@name'' = Inr (JStr ''Q1'')"
    by (simp add: single_entry_def)
  have c: "subscript ([single_entry ''Q1'' ''9''] ! 0) ''choice'' = Inr (JObj [(''@value'', JStr ''9'')])"
    by (simp add: single_entry_def)
  have v: "subscript (JObj [(''@value'', JStr ''9'')]) ''@value'' = Inr (JStr ''9'')" by simp
  have q: "questions_mapping_example (JStr ''Q1'') = Some ?qd"
    by (simp add: questions_mapping_example_def)
  have k: "q_choices ?qd (JStr ''9'') = None" by simp
  have o: "no_text_override [text_entry ''Q1'' []] (JStr ''Q1'')"
    by (simp add: no_text_override_def text_entry_def)
  from unknown_choice_sentinel [OF run questions_mapping_example_built s t i n c v q k o] run
  show ?thesis by blast
qed

section \<open>C5: unknown question\<close>

text \<open>
  C5: every record of the output, from either loop, whose \<open>question_name\<close> is absent
  from the index has \<open>question_text = 'Unknown Question'\<close>.
\<close>

theorem unknown_question_sentinel:
  assumes "get_answers sid json_data data = Inr out"
    and "build_questions_mapping json_data = Inr qm"
    and "r \<in> set out"
    and "qm (question_name r) = None"
  shows "question_text r = JStr ''Unknown Question''"
  using question_text_resolved [OF assms(1,2,3)] assms(4)
  by (auto simp: lookup_question_text_def split: if_splits)

theorem unknown_question_sentinel_witness:
  "get_answers ''S1'' questionnaire_example
     (respondent_doc [single_entry ''Q7'' ''1''] [text_entry ''Q8'' ''hello'']) =
   Inr [\<lparr>respondent_id = JStr ''R1'', survey_id = ''S1'', question_name = JStr ''Q7'',
         question_text = JStr ''Unknown Question'', question_value = JStr ''1'',
         choice_text = JStr ''Unknown Choice''\<rparr>,
        \<lparr>respondent_id = JStr ''R1'', survey_id = ''S1'', question_name = JStr ''Q8'',
         question_text = JStr ''Unknown Question'', question_value = JNull,
         choice_text = JStr ''hello''\<rparr>] \<and>
   questions_mapping_example (JStr ''Q7'') = None \<and>
   questions_mapping_example (JStr ''Q8'') = None \<and>
   question_text \<lparr>respondent_id = JStr ''R1'', survey_id = ''S1'', question_name = JStr ''Q7'',
         question_text = JStr ''Unknown Question'', question_value = JStr ''1'',
         choice_text = JStr ''Unknown Choice''\<rparr> = JStr ''Unknown Question'' \<and>
   question_text \<lparr>respondent_id = JStr ''R1'', survey_id = ''S1'', question_name = JStr ''Q8'',
         question_text = JStr ''Unknown Question'', question_value = JNull,
         choice_text = JStr ''hello''\<rparr> = JStr ''Unknown Question''"
proof -
  let ?d = "respondent_doc [single_entry ''Q7'' ''1''] [text_entry ''Q8'' ''hello'']"
  let ?r1 = "\<lparr>respondent_id = JStr ''R1'', survey_id = ''S1'', question_name = JStr ''Q7'',
         question_text = JStr ''Unknown Question'', question_value = JStr ''1'',
         choice_text = JStr ''Unknown Choice''\<rparr>"
  let ?r2 = "\<lparr>respondent_id = JStr ''R1'', survey_id = ''S1'', question_name = JStr ''Q8'',
         question_text = JStr ''Unknown Question'', question_value = JNull,
         choice_text = JStr ''hello''\<rparr>"
  have run: "get_answers ''S1'' questionnaire_example ?d = Inr [?r1, ?r2]"
    by (simp add: eval_defs)
  have m1: "?r1 \<in> set [?r1, ?r2]" and m2: "?r2 \<in> set [?r1, ?r2]" by simp_all
  have a1: "questions_mapping_example (question_name ?r1) = None"
    and a2: "questions_mapping_example (question_name ?r2) = None"
    by (simp_all add: questions_mapping_example_def)
  from unknown_question_sentinel [OF run questions_mapping_example_built m1 a1]
       unknown_question_sentinel [OF run questions_mapping_example_built m2 a2] run a1 a2
  show ?thesis by simp
qed

section \<open>C6: order of the output\<close>

text \<open>
  C6: the output is the records of the \<open>valueSingle\<close> entries, one per entry and in the
  order of the entries, followed by the records of the second loop, which come from
  \<open>valueText\<close> entries taken in document order.
\<close>

theorem pass_order:
  assumes "get_answers sid json_data data = Inr out"
    and "answer_entries data ''valueSingle'' = Inr singles"
    and "answer_entries data ''valueText'' = Inr texts"
  shows "\<exists>recs1 recs2 kept.
           out = recs1 @ recs2 \<and>
           list_all2 from_choice singles recs1 \<and>
           subseq kept texts \<and> list_all2 from_text kept recs2"
proof -
  from get_answers_parts [OF assms(1)] obtain qm where
    qm: "build_questions_mapping json_data = Inr qm" by blast
  from get_answers_shape [OF assms(1) qm assms(2,3)] obtain rid recs1 recs2 kept where
    out: "out = recs1 @ recs2" and
    l1: "list_all2 (\<lambda>a r. choice_record rid sid qm data a = Inr r) singles recs1" and
    s: "subseq kept texts" and
    l2: "list_all2 (text_record rid sid qm) kept recs2"
    by blast
  have "list_all2 from_choice singles recs1"
    using l1
  proof (rule list_all2_mono)
    fix a r assume "choice_record rid sid qm data a = Inr r"
    from choice_record_fields(1,3) [OF this] show "from_choice a r"
      by (auto simp: from_choice_def)
  qed
  moreover have "list_all2 from_text kept recs2"
    using l2 by (rule list_all2_mono) (simp add: text_record_def)
  ultimately show ?thesis using out s by blast
qed

theorem pass_order_witness:
  "\<exists>recs1 recs2 kept.
     [\<lparr>respondent_id = JStr ''R1'', survey_id = ''S1'', question_name = JStr ''Q1'',
         question_text = JStr ''Happy?'', question_value = JStr ''1'',
         choice_text = JStr ''Yes''\<rparr>,
      \<lparr>respondent_id = JStr ''R1'', survey_id = ''S1'', question_name = JStr ''Q3'',
         question_text = JStr ''Unknown Question'', question_value = JNull,
         choice_text = JStr ''first''\<rparr>,
      \<lparr>respondent_id = JStr ''R1'', survey_id = ''S1'', question_name = JStr ''Q2'',
         question_text = JStr [], question_value = JNull,
         choice_text = JStr ''second''\<rparr>] = recs1 @ recs2 \<and>
     list_all2 from_choice [single_entry ''Q1'' ''1''] recs1 \<and>
     subseq kept [text_entry ''Q3'' ''first'', text_entry ''Q2'' ''second'',
                  text_entry ''Q3'' ''third''] \<and>
     list_all2 from_text kept recs2"
proof -
  let ?texts = "[text_entry ''Q3'' ''first'', text_entry ''Q2'' ''second'', text_entry ''Q3'' ''third'']"
  let ?d = "respondent_doc [single_entry ''Q1'' ''1''] ?texts"
  have run: "get_answers ''S1'' questionnaire_example ?d =
    Inr [\<lparr>respondent_id = JStr ''R1'', survey_id = ''S1'', question_name = JStr ''Q1'',
         question_text = JStr ''Happy?'', question_value = JStr ''1'',
         choice_text = JStr ''Yes''\<rparr>,
      \<lparr>respondent_id = JStr ''R1'', survey_id = ''S1'', question_name = JStr ''Q3'',
         question_text = JStr ''Unknown Question'', question_value = JNull,
         choice_text = JStr ''first''\<rparr>,
      \<lparr>respondent_id = JStr ''R1'', survey_id = ''S1'', question_name = JStr ''Q2'',
         question_text = JStr [], question_value = JNull,
         choice_text = JStr ''second''\<rparr>]"
    by (simp add: eval_defs)
  have s: "answer_entries ?d ''valueSingle'' = Inr [single_entry ''Q1'' ''1'']"
    by (simp add: eval_defs)
  have t: "answer_entries ?d ''valueText'' = Inr ?texts"
    by (simp add: eval_defs)
  from pass_order [OF run s t] show ?thesis .
qed

section \<open>The index and missing text bodies\<close>

lemma text_of_bodyless: "bodyless x \<Longrightarrow> text_of x = Inr (JStr [])"
  by (auto simp: bodyless_def text_of_def split: sum.splits json.splits)

lemma text_of_text_block: "text_block x \<Longrightarrow> \<exists>t. text_of x = Inr t"
  by (auto simp: text_block_def text_of_def split: sum.splits json.splits)

lemma index_choices_total:
  "list_all choice_entry cs \<Longrightarrow> \<exists>m'. index_choices m cs = Inr m'"
proof (induction cs arbitrary: m)
  case Nil
  then show ?case by simp
next
  case (Cons c cs)
  from Cons.prems have ce: "choice_entry c" and rest: "list_all choice_entry cs" by simp_all
  from ce obtain v where v: "subscript c ''@value'' = Inr v" "hashable v"
    and tb: "text_block c"
    by (auto simp: choice_entry_def split: sum.splits)
  from text_of_text_block [OF tb] obtain t where t: "text_of c = Inr t" by blast
  from Cons.IH [OF rest] obtain m' where "index_choices (m(v \<mapsto> t)) cs = Inr m'" by blast
  with v t show ?case by simp
qed

lemma choices_of_total:
  assumes "question_entry item"
  shows "\<exists>cm. choices_of item = Inr cm"
proof (cases "has_key item ''varChoice''")
  case False
  then show ?thesis by (simp add: choices_of_def)
next
  case True
  with assms obtain cs where "subscript item ''varChoice'' = Inr (JList cs)"
    and "list_all choice_entry cs"
    by (auto simp: question_entry_def split: sum.splits json.splits)
  with True index_choices_total [of cs Map.empty] show ?thesis
    by (auto simp: choices_of_def)
qed

lemma index_item_total:
  assumes "question_entry item"
  shows "\<exists>qm'. index_item qm item = Inr qm'"
proof -
  from assms obtain n where n: "subscript item ''@name'' = Inr n" "hashable n"
    and tb: "text_block item"
    by (auto simp: question_entry_def split: sum.splits)
  from text_of_text_block [OF tb] obtain t where t: "text_of item = Inr t" by blast
  from choices_of_total [OF assms] obtain cm where "choices_of item = Inr cm" by blast
  with n t show ?thesis by (simp add: index_item_def)
qed

lemma index_items_total:
  "list_all question_entry items \<Longrightarrow> \<exists>qm'. index_items qm items = Inr qm'"
proof (induction items arbitrary: qm)
  case Nil
  then show ?case by simp
next
  case (Cons item items)
  then have "question_entry item" and rest: "list_all question_entry items" by simp_all
  from index_item_total [OF this(1)] obtain qm1 where "index_item qm item = Inr qm1" by blast
  moreover from Cons.IH [OF rest] obtain qm' where "index_items qm1 items = Inr qm'" by blast
  ultimately show ?case by simp
qed

lemma index_choices_bodyless:
  assumes "index_choices m cs = Inr m'"
    and "\<forall>c \<in> set cs. subscript c ''@value'' = Inr v \<longrightarrow> bodyless c"
    and "m v = Some (JStr []) \<or> (\<exists>c \<in> set cs. subscript c ''@value'' = Inr v)"
  shows "m' v = Some (JStr [])"
  using assms
proof (induction cs arbitrary: m)
  case Nil
  then show ?case by simp
next
  case (Cons c cs)
  from Cons.prems(1) obtain w t where w: "subscript c ''@value'' = Inr w"
    and t: "text_of c = Inr t" and h: "hashable w"
    and rest: "index_choices (m(w \<mapsto> t)) cs = Inr m'"
    by (auto split: sum.splits if_splits)
  have all: "\<forall>c \<in> set cs. subscript c ''@value'' = Inr v \<longrightarrow> bodyless c"
    using Cons.prems(2) by simp
  show ?case
  proof (cases "w = v")
    case True
    with w Cons.prems(2) have "bodyless c" by simp
    with t have "t = JStr []" by (simp add: text_of_bodyless)
    with True have "(m(w \<mapsto> t)) v = Some (JStr [])" by simp
    with Cons.IH [OF rest all] show ?thesis by blast
  next
    case False
    with w Cons.prems(3) have
      "(m(w \<mapsto> t)) v = Some (JStr []) \<or> (\<exists>c \<in> set cs. subscript c ''@value'' = Inr v)"
      by auto
    with Cons.IH [OF rest all] show ?thesis by blast
  qed
qed

lemma index_items_bodyless:
  assumes "index_items qm items = Inr qm'"
    and "\<forall>item \<in> set items. subscript item ''@name'' = Inr n \<longrightarrow> bodyless item"
    and "(\<exists>qd. qm n = Some qd \<and> q_text qd = JStr []) \<or>
         (\<exists>item \<in> set items. subscript item ''@name'' = Inr n)"
  shows "\<exists>qd. qm' n = Some qd \<and> q_text qd = JStr []"
  using assms
proof (induction items arbitrary: qm)
  case Nil
  then show ?case by simp
next
  case (Cons item items)
  from Cons.prems(1) obtain qm1 where step: "index_item qm item = Inr qm1"
    and rest: "index_items qm1 items = Inr qm'"
    by (auto split: sum.splits)
  from step obtain w t cm where w: "subscript item ''@name'' = Inr w"
    and t: "text_of item = Inr t"
    and qm1: "qm1 = qm(w \<mapsto> \<lparr>q_text = t, q_choices = cm\<rparr>)"
    by (auto simp: index_item_def split: sum.splits if_splits)
  have all: "\<forall>item \<in> set items. subscript item ''@name'' = Inr n \<longrightarrow> bodyless item"
    using Cons.prems(2) by simp
  show ?case
  proof (cases "w = n")
    case True
    with w Cons.prems(2) have "bodyless item" by simp
    with t have "t = JStr []" by (simp add: text_of_bodyless)
    with True qm1 have "\<exists>qd. qm1 n = Some qd \<and> q_text qd = JStr []" by simp
    with Cons.IH [OF rest all] show ?thesis by blast
  next
    case False
    with w qm1 Cons.prems(3) have
      "(\<exists>qd. qm1 n = Some qd \<and> q_text qd = JStr []) \<or>
       (\<exists>item \<in> set items. subscript item ''@name'' = Inr n)"
      by auto
    with Cons.IH [OF rest all] show ?thesis by blast
  qed
qed

text \<open>The extraction returns only on a dictionary.\<close>

lemma text_of_Inr_text_block: "text_of x = Inr t \<Longrightarrow> text_block x"
proof -
  assume a: "text_of x = Inr t"
  then obtain tt where tt: "subscript x ''text'' = Inr tt"
    and g: "get_method tt ''#text'' (JStr []) = Inr t"
    by (auto simp: text_of_def split: sum.splits)
  from g obtain kvs where "tt = JObj kvs" by (cases tt) auto
  with tt show ?thesis by (simp add: text_block_def)
qed

lemma index_item_Inr_text_block: "index_item qm item = Inr qm' \<Longrightarrow> text_block item"
proof -
  assume "index_item qm item = Inr qm'"
  then obtain t where "text_of item = Inr t"
    by (auto simp: index_item_def split: sum.splits)
  then show ?thesis by (rule text_of_Inr_text_block)
qed

lemma index_items_Inr_text_block:
  "index_items qm items = Inr qm' \<Longrightarrow> list_all text_block items"
proof (induction items arbitrary: qm)
  case Nil
  then show ?case by simp
next
  case (Cons item items)
  from Cons.prems obtain qm1 where step: "index_item qm item = Inr qm1"
    and rest: "index_items qm1 items = Inr qm'"
    by (auto split: sum.splits)
  from index_item_Inr_text_block [OF step] Cons.IH [OF rest] show ?case by simp
qed

lemma text_of_no_dictionary:
  assumes "subscript x ''text'' = Inr tt" and "\<forall>kvs. tt \<noteq> JObj kvs"
  shows "text_of x = Inl AttributeError"
  using assms by (cases tt) (auto simp: text_of_def)

section \<open>C8: a missing text body becomes the empty string\<close>

text \<open>
  C8, amended: for a question entry or a choice entry whose \<open>text\<close> element is a
  dictionary (an element with attributes), the extraction \<open>x['text'].get('#text', '')\<close>
  tolerates a missing body and gives the empty string, which is what the index then
  holds as the question text and as the choice text; the index is built whenever the
  entries are well formed, whether their text blocks have a body or not. The extraction
  returns only when the \<open>text\<close> element is a dictionary: for a \<open>text\<close> that is \<open>None\<close>
  (an empty element without attributes) it raises \<open>AttributeError\<close>, and an index is
  built only if every question entry has a dictionary as its \<open>text\<close>.
\<close>

theorem missing_text_body_of_text_block:
  "(bodyless x \<longrightarrow> text_of x = Inr (JStr [])) \<and>
   ((\<exists>t. text_of x = Inr t) \<longleftrightarrow> text_block x) \<and>
   (subscript x ''text'' = Inr JNull \<longrightarrow> text_of x = Inl AttributeError) \<and>
   (foreground_variables json_data = Inr (JList items) \<and> list_all question_entry items \<longrightarrow>
      (\<exists>qm. build_questions_mapping json_data = Inr qm)) \<and>
   (foreground_variables json_data = Inr (JList items) \<and>
    build_questions_mapping json_data = Inr qm \<longrightarrow> list_all text_block items) \<and>
   (foreground_variables json_data = Inr (JList items) \<and>
    build_questions_mapping json_data = Inr qm \<and>
    item \<in> set items \<and> subscript item ''@name'' = Inr n \<and>
    (\<forall>item' \<in> set items. subscript item' ''@name'' = Inr n \<longrightarrow> bodyless item') \<longrightarrow>
      (\<exists>qd. qm n = Some qd \<and> q_text qd = JStr [])) \<and>
   (subscript item ''varChoice'' = Inr (JList cs) \<and> choices_of item = Inr cm \<and>
    c \<in> set cs \<and> subscript c ''@value'' = Inr v \<and>
    (\<forall>c' \<in> set cs. subscript c' ''@value'' = Inr v \<longrightarrow> bodyless c') \<longrightarrow>
      cm v = Some (JStr []))"
proof (intro conjI impI)
  assume "bodyless x"
  then show "text_of x = Inr (JStr [])" by (rule text_of_bodyless)
next
  show "(\<exists>t. text_of x = Inr t) \<longleftrightarrow> text_block x"
    using text_of_Inr_text_block [of x] text_of_text_block [of x] by blast
next
  assume "subscript x ''text'' = Inr JNull"
  then show "text_of x = Inl AttributeError" by (rule text_of_no_dictionary) simp
next
  assume "foreground_variables json_data = Inr (JList items) \<and> list_all question_entry items"
  with index_items_total [of items Map.empty]
  show "\<exists>qm. build_questions_mapping json_data = Inr qm"
    by (auto simp: build_questions_mapping_def)
next
  assume "foreground_variables json_data = Inr (JList items) \<and>
    build_questions_mapping json_data = Inr qm"
  then have "index_items Map.empty items = Inr qm"
    by (auto simp: build_questions_mapping_def)
  then show "list_all text_block items" by (rule index_items_Inr_text_block)
next
  assume a: "foreground_variables json_data = Inr (JList items) \<and>
    build_questions_mapping json_data = Inr qm \<and>
    item \<in> set items \<and> subscript item ''@name'' = Inr n \<and>
    (\<forall>item' \<in> set items. subscript item' ''@name'' = Inr n \<longrightarrow> bodyless item')"
  then have "index_items Map.empty items = Inr qm"
    by (auto simp: build_questions_mapping_def)
  from index_items_bodyless [OF this, of n] a
  show "\<exists>qd. qm n = Some qd \<and> q_text qd = JStr []" by blast
next
  assume a: "subscript item ''varChoice'' = Inr (JList cs) \<and> choices_of item = Inr cm \<and>
    c \<in> set cs \<and> subscript c ''@value'' = Inr v \<and>
    (\<forall>c' \<in> set cs. subscript c' ''@value'' = Inr v \<longrightarrow> bodyless c')"
  then have "has_key item ''varChoice''" by (cases item) (auto split: option.splits)
  with a have "index_choices Map.empty cs = Inr cm" by (auto simp: choices_of_def)
  from index_choices_bodyless [OF this, of v] a show "cm v = Some (JStr [])" by blast
qed

theorem missing_text_body_of_text_block_witness:
  "text_of question_q2 = Inr (JStr []) \<and>
   text_of question_q3 = Inl AttributeError \<and>
   list_all text_block [question_q1, question_q2] \<and>
   (\<exists>qm. build_questions_mapping questionnaire_example = Inr qm) \<and>
   (\<exists>qd. questions_mapping_example (JStr ''Q2'') = Some qd \<and> q_text qd = JStr []) \<and>
   [JStr ''1'' \<mapsto> JStr ''Yes'', JStr ''2'' \<mapsto> JStr ''No'', JStr ''3'' \<mapsto> JStr []] (JStr ''3'') =
     Some (JStr [])"
proof -
  let ?items = "[question_q1, question_q2]"
  let ?cs = "[choice_entry_example ''1'' [(''@lang'', JStr ''da''), (''#text'', JStr ''Yes'')],
              choice_entry_example ''2'' [(''@lang'', JStr ''da''), (''#text'', JStr ''No'')],
              choice_entry_example ''3'' [(''@lang'', JStr ''da'')]]"
  let ?c = "choice_entry_example ''3'' [(''@lang'', JStr ''da'')]"
  let ?cm = "[JStr ''1'' \<mapsto> JStr ''Yes'', JStr ''2'' \<mapsto> JStr ''No'', JStr ''3'' \<mapsto> JStr []]"
  have a: "bodyless question_q2" by (simp add: bodyless_def question_q2_def)
  have b: "foreground_variables questionnaire_example = Inr (JList ?items) \<and>
           list_all question_entry ?items"
    by (simp add: foreground_variables_def questionnaire_example_def question_entry_def
          choice_entry_def text_block_def question_q1_def question_q2_def
          choice_entry_example_def)
  have c: "foreground_variables questionnaire_example = Inr (JList ?items) \<and>
           build_questions_mapping questionnaire_example = Inr questions_mapping_example \<and>
           question_q2 \<in> set ?items \<and> subscript question_q2 ''@name'' = Inr (JStr ''Q2'') \<and>
           (\<forall>item' \<in> set ?items. subscript item' ''@name'' = Inr (JStr ''Q2'') \<longrightarrow> bodyless item')"
    by (simp add: eval_defs questions_mapping_example_def bodyless_def)
  have d: "subscript question_q1 ''varChoice'' = Inr (JList ?cs) \<and>
           choices_of question_q1 = Inr ?cm \<and>
           ?c \<in> set ?cs \<and> subscript ?c ''@value'' = Inr (JStr ''3'') \<and>
           (\<forall>c' \<in> set ?cs. subscript c' ''@value'' = Inr (JStr ''3'') \<longrightarrow> bodyless c')"
    by (simp add: eval_defs bodyless_def)
  from missing_text_body_of_text_block [of question_q2 questionnaire_example ?items] a b
  have 1: "text_of question_q2 = Inr (JStr [])"
    and 2: "\<exists>qm. build_questions_mapping questionnaire_example = Inr qm" by blast+
  from missing_text_body_of_text_block
         [of _ questionnaire_example ?items questions_mapping_example question_q2 "JStr ''Q2''"] c
  have 3: "\<exists>qd. questions_mapping_example (JStr ''Q2'') = Some qd \<and> q_text qd = JStr []"
    by blast
  from missing_text_body_of_text_block
         [of _ _ _ _ question_q1 _ ?cs ?cm ?c "JStr ''3''"] d
  have 4: "?cm (JStr ''3'') = Some (JStr [])" by blast
  have e: "subscript question_q3 ''text'' = Inr JNull" by (simp add: question_q3_def)
  from missing_text_body_of_text_block [of question_q3] e
  have 5: "text_of question_q3 = Inl AttributeError" by blast
  have f: "foreground_variables questionnaire_example = Inr (JList ?items) \<and>
           build_questions_mapping questionnaire_example = Inr questions_mapping_example"
    using c by blast
  from missing_text_body_of_text_block
         [of _ questionnaire_example ?items questions_mapping_example] f
  have 6: "list_all text_block ?items" by blast
  from 1 2 3 4 5 6 show ?thesis by blast
qed

text \<open>
  A question whose \<open>text\<close> element is empty and has no attributes parses to
  \<open>'text': None\<close>: the extraction fails on it and no index is built.
\<close>

theorem missing_text_body_counterexample:
  "get_answers ''S1'' questionnaire_empty_text
     (respondent_doc [single_entry ''Q1'' ''1'', single_entry ''Q3'' ''2'']
        [text_entry ''Q2'' ''free'', text_entry ''Q4'' ''hello'']) = Inl AttributeError \<and>
   build_questions_mapping questionnaire_empty_text = Inl AttributeError \<and>
   text_of question_q3 = Inl AttributeError \<and>
   subscript question_q3 ''text'' = Inr JNull"
  by (simp add: eval_defs)

section \<open>C10: unknown question and unknown choice together\<close>



section \<open>Errors of a run\<close>


























section \<open>C7: a missing container\<close>





section \<open>Effects of the uploader\<close>

lemma range3: "[0..<3] = [0, 1, 2]"
  by (simp add: upt_rec)

lemma save_executes:
  "1 \<le> count_list (snd (save_respondent_to_db env)) DbExecute \<and>
   count_list (snd (save_respondent_to_db env)) DbExecute \<le> 3"
  by (simp add: save_respondent_to_db_def range3 Let_def)

lemma save_retries:
  "\<not> (execute_ok env 0 \<and> commit_ok env 0) \<Longrightarrow> connect_ok env 0 \<Longrightarrow>
   2 \<le> count_list (snd (save_respondent_to_db env)) DbExecute"
  by (simp add: save_respondent_to_db_def range3 Let_def)

lemma save_no_post: "count_list (snd (save_respondent_to_db env)) HttpPost = 0"
  by (simp add: save_respondent_to_db_def range3 Let_def)

lemma save_persist_failed:
  "fst (save_respondent_to_db env) = Inl (PersistFailed i) \<Longrightarrow>
   i = 2 \<and> count_list (snd (save_respondent_to_db env)) DbExecute = 3"
  by (simp add: save_respondent_to_db_def range3 Let_def split: if_splits)

lemma save_connect_failed:
  "fst (save_respondent_to_db env) = Inl (ConnectFailed i) \<Longrightarrow>
   i < 2 \<and> count_list (snd (save_respondent_to_db env)) DbExecute = i + 1"
  by (simp add: save_respondent_to_db_def range3 Let_def split: if_splits)

lemma dict_set_has: "(k, v) \<in> set (dict_set d k v)"
proof (cases "map_of d k")
  case None
  then show ?thesis by (simp add: dict_set_def)
next
  case (Some x)
  then have "(k, x) \<in> set d" by (rule map_of_SomeD)
  then have "(\<lambda>kv. if fst kv = k then (k, v) else kv) (k, x) \<in>
             (\<lambda>kv. if fst kv = k then (k, v) else kv) ` set d" by (rule imageI)
  with Some show ?thesis by (simp add: dict_set_def)
qed

lemma dict_set_encodes:
  assumes "encodes v"
  shows "list_all (\<lambda>kv. encodes (snd kv)) (dict_set d k v) \<longleftrightarrow>
         list_all (\<lambda>kv. fst kv = k \<or> encodes (snd kv)) d"
proof (cases "map_of d k")
  case None
  then have "\<forall>kv \<in> set d. fst kv \<noteq> k" by (auto simp: map_of_eq_None_iff)
  then have "list_all (\<lambda>kv. fst kv = k \<or> encodes (snd kv)) d \<longleftrightarrow>
             list_all (\<lambda>kv. encodes (snd kv)) d"
    by (auto simp: list_all_iff)
  with None assms show ?thesis by (simp add: dict_set_def)
next
  case (Some x)
  have "list_all (\<lambda>kv. encodes (snd kv)) (map (\<lambda>kv. if fst kv = k then (k, v) else kv) d) \<longleftrightarrow>
        list_all (\<lambda>kv. fst kv = k \<or> encodes (snd kv)) d"
    using assms by (induction d) auto
  with Some show ?thesis by (simp add: dict_set_def)
qed

lemma dict_set_not_encodes:
  assumes "\<not> encodes v"
  shows "\<not> list_all (\<lambda>kv. encodes (snd kv)) (dict_set d k v)"
proof
  assume "list_all (\<lambda>kv. encodes (snd kv)) (dict_set d k v)"
  then have "\<forall>kv \<in> set (dict_set d k v). encodes (snd kv)" by (simp add: list_all_iff)
  from this dict_set_has [of k v d] have "encodes (snd (k, v))" by (rule bspec)
  with assms show False by simp
qed

lemma insert_posts:
  "count_list (snd (insert_respondent d t h)) HttpPost = (if request_prepares d then 1 else 0)"
proof (cases "map_of d ''accounti''")
  case None
  then show ?thesis by (simp add: insert_respondent_def request_prepares_def)
next
  case (Some a)
  show ?thesis
  proof (cases a)
    case (PyStr s)
    have "list_all (\<lambda>kv. encodes (snd kv)) (dict_set d ''requesti'' (PyStr (s @ t))) \<longleftrightarrow>
          list_all (\<lambda>kv. fst kv = ''requesti'' \<or> encodes (snd kv)) d"
      by (rule dict_set_encodes) simp
    with Some PyStr show ?thesis
      by (simp add: insert_respondent_def request_prepares_def split: http_outcome.splits)
  next
    case PyUnencodable
    have "\<not> list_all (\<lambda>kv. encodes (snd kv)) (dict_set d ''requesti'' PyUnencodable)"
      by (rule dict_set_not_encodes) simp
    with Some PyUnencodable show ?thesis
      by (simp add: insert_respondent_def request_prepares_def)
  next
    case PyOther
    with Some show ?thesis by (simp add: insert_respondent_def request_prepares_def)
  qed
qed


lemma insert_no_execute: "count_list (snd (insert_respondent d t h)) DbExecute = 0"
  by (simp add: insert_respondent_def split: option.splits http_outcome.splits)

lemma insert_returns_posted:
  "fst (insert_respondent d t h) = Inr x \<Longrightarrow> count_list (snd (insert_respondent d t h)) HttpPost = 1"
  by (auto simp: insert_respondent_def split: option.splits http_outcome.splits if_splits)

lemma process_respondent_counts:
  "count_list (snd (process_respondent r)) HttpPost \<le> 1 \<and>
   count_list (snd (process_respondent r)) DbExecute \<le> 3 \<and>
   (fst (process_respondent r) = Inr () \<longrightarrow> count_list (snd (process_respondent r)) HttpPost = 1)"
proof (cases "build_respondent_dict (row r) respondent_columns []")
  case (Inl e)
  then show ?thesis by (simp add: process_respondent_def)
next
  case (Inr d)
  obtain ires itr where i: "insert_respondent d (now_text r) (http r) = (ires, itr)"
    by fastforce
  with insert_posts [of d "now_text r" "http r"] insert_no_execute [of d "now_text r" "http r"]
    insert_returns_posted [of d "now_text r" "http r"]
  have itr: "count_list itr HttpPost \<le> 1" "count_list itr DbExecute = 0"
    "\<And>x. ires = Inr x \<Longrightarrow> count_list itr HttpPost = 1" by simp_all
  obtain sres str where s: "save_respondent_to_db (db r) = (sres, str)" by fastforce
  with save_no_post [of "db r"] save_executes [of "db r"]
  have str: "count_list str HttpPost = 0" "count_list str DbExecute \<le> 3" by simp_all
  show ?thesis
  proof (cases ires)
    case (Inl e)
    with Inr i itr show ?thesis by (simp add: process_respondent_def)
  next
    case ok: (Inr x)
    with itr have one: "count_list itr HttpPost = 1" by simp
    show ?thesis
    proof (cases x)
      case None
      with Inr i ok itr show ?thesis by (simp add: process_respondent_def)
    next
      case (Some response)
      with Inr i ok itr one s str show ?thesis by (simp add: process_respondent_def)
    qed
  qed
qed

lemma process_trace:
  "process_base_respondents rs tr = (res, tr') \<Longrightarrow>
   \<exists>ext. tr' = tr @ ext \<and>
         count_list ext HttpPost \<le> length rs \<and>
         (res = Inr () \<longrightarrow> count_list ext HttpPost = length rs) \<and>
         count_list ext DbExecute \<le> 3 * length rs"
proof (induction rs arbitrary: tr)
  case Nil
  then show ?case by simp
next
  case (Cons r rs)
  obtain pres ptr where p: "process_respondent r = (pres, ptr)" by fastforce
  with process_respondent_counts [of r]
  have c: "count_list ptr HttpPost \<le> 1" "count_list ptr DbExecute \<le> 3"
    "pres = Inr () \<longrightarrow> count_list ptr HttpPost = 1" by simp_all
  show ?case
  proof (cases pres)
    case (Inl e)
    with Cons.prems p have "tr' = tr @ ptr" "res = Inl e" by simp_all
    with c show ?thesis by simp
  next
    case (Inr u)
    with Cons.prems p have "process_base_respondents rs (tr @ ptr) = (res, tr')" by simp
    from Cons.IH [OF this] obtain ext where
      e: "tr' = (tr @ ptr) @ ext" "count_list ext HttpPost \<le> length rs"
        "res = Inr () \<longrightarrow> count_list ext HttpPost = length rs"
        "count_list ext DbExecute \<le> 3 * length rs" by blast
    from Inr c have "count_list ptr HttpPost = 1" by simp
    with e c show ?thesis by (intro exI [of _ "ptr @ ext"]) auto
  qed
qed

lemmas uploader_defs = process_respondent_def insert_respondent_def save_respondent_to_db_def
  range3 sample_row_def sample_row_bad_def respondent_columns_def dict_set_def
  db_second_try_def db_always_fails_def db_unreachable_def request_prepares_def

section \<open>C9: only the persistence step is retried\<close>

text \<open>
  C9, amended: \<open>save_respondent_to_db\<close> runs the insert at most three times, runs it
  again after a failed attempt once it has reconnected, and raises the exception of an
  attempt only when that attempt is the third (an exception of the reconnection itself
  ends the loop at once, after the first or second attempt); it performs no HTTP request.
  The submission is never repeated: \<open>insert_respondent\<close> sends one POST when the request
  can be prepared and none when preparing it raises, so a respondent is submitted at most
  once, and exactly once when its processing completes; a run over \<open>n\<close> respondents
  sends at most \<open>n\<close> POSTs, and \<open>n\<close> when it completes.
\<close>

theorem persistence_retried_submission_at_most_once:
  "count_list (snd (save_respondent_to_db env)) DbExecute \<le> 3 \<and>
   (\<not> (execute_ok env 0 \<and> commit_ok env 0) \<and> connect_ok env 0 \<longrightarrow>
      2 \<le> count_list (snd (save_respondent_to_db env)) DbExecute) \<and>
   (fst (save_respondent_to_db env) = Inl (PersistFailed i) \<longrightarrow>
      i = 2 \<and> count_list (snd (save_respondent_to_db env)) DbExecute = 3) \<and>
   (fst (save_respondent_to_db env) = Inl (ConnectFailed i) \<longrightarrow>
      i < 2 \<and> count_list (snd (save_respondent_to_db env)) DbExecute = i + 1) \<and>
   count_list (snd (save_respondent_to_db env)) HttpPost = 0 \<and>
   count_list (snd (insert_respondent d t h)) HttpPost = (if request_prepares d then 1 else 0) \<and>
   count_list (snd (process_respondent r)) HttpPost \<le> 1 \<and>
   count_list (snd (process_respondent r)) DbExecute \<le> 3 \<and>
   (fst (process_respondent r) = Inr () \<longrightarrow>
      count_list (snd (process_respondent r)) HttpPost = 1) \<and>
   count_list (snd (process_base_respondents rs [])) HttpPost \<le> length rs \<and>
   (fst (process_base_respondents rs []) = Inr () \<longrightarrow>
      count_list (snd (process_base_respondents rs [])) HttpPost = length rs)"
proof -
  obtain res tr' where p: "process_base_respondents rs [] = (res, tr')" by fastforce
  from process_trace [OF p] have
    "count_list tr' HttpPost \<le> length rs"
    "res = Inr () \<longrightarrow> count_list tr' HttpPost = length rs" by auto
  with p save_executes [of env] save_retries [of env] save_persist_failed [of env i]
    save_connect_failed [of env i] save_no_post [of env] insert_posts [of d t h]
    process_respondent_counts [of r]
  show ?thesis by simp
qed

theorem persistence_retried_submission_at_most_once_witness:
  "save_respondent_to_db db_always_fails =
     (Inl (PersistFailed 2), [DbExecute, DbConnect, DbExecute, DbConnect, DbExecute]) \<and>
   count_list (snd (save_respondent_to_db db_always_fails)) DbExecute = 3 \<and>
   count_list (snd (save_respondent_to_db db_always_fails)) HttpPost = 0 \<and>
   save_respondent_to_db db_unreachable = (Inl (ConnectFailed 0), [DbExecute, DbConnect]) \<and>
   count_list (snd (save_respondent_to_db db_unreachable)) DbExecute = 1 \<and>
   process_base_respondents
     [\<lparr>row = sample_row, now_text = ''20240101120000'', http = Status 200,
       body_ok = True, db = db_second_try\<rparr>,
      \<lparr>row = sample_row, now_text = ''20240101120000'', http = Status 200,
       body_ok = True, db = db_second_try\<rparr>] [] =
     (Inr (), [HttpPost, DbExecute, DbConnect, DbExecute, DbCommit,
               HttpPost, DbExecute, DbConnect, DbExecute, DbCommit]) \<and>
   count_list (snd (process_base_respondents
     [\<lparr>row = sample_row, now_text = ''20240101120000'', http = Status 200,
       body_ok = True, db = db_second_try\<rparr>,
      \<lparr>row = sample_row, now_text = ''20240101120000'', http = Status 200,
       body_ok = True, db = db_second_try\<rparr>] [])) HttpPost = 2 \<and>
   count_list (snd (process_respondent
     \<lparr>row = sample_row, now_text = ''20240101120000'', http = Status 200,
      body_ok = True, db = db_second_try\<rparr>)) HttpPost = 1"
proof -
  let ?r = "\<lparr>row = sample_row, now_text = ''20240101120000'', http = Status 200,
             body_ok = True, db = db_second_try\<rparr>"
  have s: "save_respondent_to_db db_always_fails =
     (Inl (PersistFailed 2), [DbExecute, DbConnect, DbExecute, DbConnect, DbExecute])"
    by (simp add: uploader_defs)
  have u: "save_respondent_to_db db_unreachable = (Inl (ConnectFailed 0), [DbExecute, DbConnect])"
    by (simp add: uploader_defs)
  have p1: "process_respondent ?r =
     (Inr (), [HttpPost, DbExecute, DbConnect, DbExecute, DbCommit])"
    by (simp add: uploader_defs)
  have p: "process_base_respondents [?r, ?r] [] =
     (Inr (), [HttpPost, DbExecute, DbConnect, DbExecute, DbCommit,
               HttpPost, DbExecute, DbConnect, DbExecute, DbCommit])"
    by (simp add: p1)
  have h1: "\<not> (execute_ok db_always_fails 0 \<and> commit_ok db_always_fails 0) \<and>
            connect_ok db_always_fails 0"
    by (simp add: db_always_fails_def)
  have h2: "fst (save_respondent_to_db db_always_fails) = Inl (PersistFailed 2)"
    using s by simp
  have h3: "fst (save_respondent_to_db db_unreachable) = Inl (ConnectFailed 0)"
    using u by simp
  have h4: "fst (process_respondent ?r) = Inr ()" using p1 by simp
  have h5: "fst (process_base_respondents [?r, ?r] []) = Inr ()" using p by simp
  note T = persistence_retried_submission_at_most_once
  from T [where env = db_always_fails and i = 2 and r = ?r and rs = "[?r, ?r]"] h1 h2 h4 h5
  have "count_list (snd (save_respondent_to_db db_always_fails)) DbExecute = 3"
    and "count_list (snd (save_respondent_to_db db_always_fails)) HttpPost = 0"
    and "count_list (snd (process_base_respondents [?r, ?r] [])) HttpPost = 2"
    and "count_list (snd (process_respondent ?r)) HttpPost = 1"
    by simp_all
  moreover from T [where env = db_unreachable and i = 0] h3
  have "count_list (snd (save_respondent_to_db db_unreachable)) DbExecute = 1" by simp
  ultimately show ?thesis using s u p by simp
qed

text \<open>
  A respondent with a value that cannot be encoded is not submitted at all: line 254
  raises before \<open>requests.request\<close> is reached.
\<close>

theorem submission_once_counterexample:
  "insert_respondent [(''accounti'', PyStr ''42''), (''email'', PyUnencodable)]
     ''20240101120000'' (Status 200) = (Inl PreparationFailed, []) \<and>
   process_base_respondents
     [\<lparr>row = sample_row_bad, now_text = ''20240101120000'', http = Status 200,
       body_ok = True, db = db_second_try\<rparr>] [] = (Inl PreparationFailed, []) \<and>
   count_list ([] :: event list) HttpPost \<noteq> 1"
  by (simp add: uploader_defs)

end
